theory Spec2Isabelle
  imports Main "HOL-Library.Multiset"
begin

section \<open>POTD tracker: completion recorder and streak engine (src/app/page.tsx)\<close>

subsection \<open>Dates, clock and time zone\<close>

text \<open>
  The page stores a completion date as the string \<^verbatim>\<open>new Date().toDateString()\<close>
  (a local calendar day, time of day dropped) and reads it back with
  \<^verbatim>\<open>new Date(s).getTime()\<close>, the local midnight of that day in milliseconds.
  A date string is modelled by the number of its calendar day, the clock ("now") by
  an integer number of milliseconds. What the \<^verbatim>\<open>Date\<close> functions return depends on
  the time zone of the browser: a zone is given by the time of the local midnight of
  every calendar day. With daylight saving, two consecutive midnights are 23 or 25
  hours apart. A date string that does not parse (an invalid Date) is outside the
  model.
\<close>

type_synonym date_string = int   \<comment> \<open>calendar day number\<close>
type_synonym millis = int        \<comment> \<open>what \<^verbatim>\<open>Date.getTime()\<close> returns\<close>
type_synonym zone = "date_string \<Rightarrow> millis"   \<comment> \<open>local midnight of a calendar day\<close>

definition msPerDay :: int where
  "msPerDay = 1000 * 60 * 60 * 24"

text \<open>\<^verbatim>\<open>new Date(s).getTime()\<close> for a date string \<open>s\<close>.\<close>

definition getTime :: "zone \<Rightarrow> date_string \<Rightarrow> millis" where
  "getTime z d = z d"

text \<open>
  \<^verbatim>\<open>t.toDateString()\<close> for a point in time \<open>t\<close>: the calendar day whose local midnight
  is the last one not after \<open>t\<close>. The local midnight of day \<open>d\<close> lies less than a day
  from \<open>d * msPerDay\<close>, so the day is found next to \<open>t div msPerDay\<close>.
\<close>

definition toDateString :: "zone \<Rightarrow> millis \<Rightarrow> date_string" where
  "toDateString z t =
     (let q = t div msPerDay
      in if t < z q then q - 1 else if z (q + 1) \<le> t then q + 1 else q)"

text \<open>
  The date string of \<^verbatim>\<open>yesterday\<close> in \<^verbatim>\<open>markComplete\<close>, made by
  \<^verbatim>\<open>yesterday.setDate(yesterday.getDate() - 1)\<close> from the current time:
  \<^verbatim>\<open>setDate\<close> changes the local calendar day and keeps the local time of day, so the
  result lies on the calendar day before today.
\<close>

definition yesterdayDateString :: "zone \<Rightarrow> millis \<Rightarrow> date_string" where
  "yesterdayDateString z now = toDateString z now - 1"

text \<open>
  A zone with a fixed offset: every local day lasts 24 hours, and local midnight is
  \<open>c\<close> milliseconds after a multiple of a day on the clock (\<open>0 \<le> c < msPerDay\<close>).
\<close>

definition offset_zone :: "millis \<Rightarrow> zone" where
  "offset_zone c d = d * msPerDay + c"

text \<open>
  A zone with one change from daylight-saving time back to standard time: day 1 lasts
  25 hours, every other day 24.
\<close>

definition fall_back_zone :: zone where
  "fall_back_zone d = (if d \<le> 1 then d * msPerDay else d * msPerDay + 3600000)"

text \<open>
  \<^verbatim>\<open>Math.round(a / b)\<close> and \<^verbatim>\<open>Math.floor(a / b)\<close> on integers \<open>a\<close> and
  \<open>b > 0\<close>: JavaScript rounds to the nearest integer, a half towards plus infinity.
\<close>

definition math_round_div :: "int \<Rightarrow> int \<Rightarrow> int" where
  "math_round_div a b = (2 * a + b) div (2 * b)"

definition math_floor_div :: "int \<Rightarrow> int \<Rightarrow> int" where
  "math_floor_div a b = a div b"

subsection \<open>Data model\<close>

text \<open>
  The interfaces \<^verbatim>\<open>Problem\<close> and \<^verbatim>\<open>Stats\<close>. The field \<^verbatim>\<open>id\<close> is named
  \<open>id_p\<close> here (\<open>id\<close> is the identity function of HOL); an optional field is an
  \<open>option\<close>, \<^verbatim>\<open>undefined\<close> being \<open>None\<close>. The counters are JavaScript numbers
  holding integers.
\<close>

record Problem =
  id_p :: string
  title :: string
  url :: string
  platform :: string
  completed :: bool
  completedDate :: "date_string option"

record Stats =
  currentStreak :: int
  longestStreak :: int
  totalCompleted :: int
  lastCompletedDate :: "date_string option"

text \<open>
  The two pieces of React state the core logic reads and replaces. A handler sees the
  state of the render it was created in and the next render sees what it set.
\<close>

record AppState =
  problems :: "Problem list"
  stats :: Stats

text \<open>The initial value of \<^verbatim>\<open>useState<Stats>\<close> (and what \<^verbatim>\<open>clearAllData\<close> sets).\<close>

definition initialStats :: Stats where
  "initialStats =
     \<lparr>currentStreak = 0, longestStreak = 0, totalCompleted = 0, lastCompletedDate = None\<rparr>"

subsection \<open>recalculateStatsFromHistory\<close>

text \<open>
  The body of the \<^verbatim>\<open>for\<close> loop of \<^verbatim>\<open>recalculateStatsFromHistory\<close>: from the
  times of the previous and the current element and the pair
  (\<^verbatim>\<open>currentStreak\<close>, \<^verbatim>\<open>longestStreak\<close>) to the pair after the iteration.
\<close>

definition loop_body :: "millis \<Rightarrow> millis \<Rightarrow> int \<times> int \<Rightarrow> int \<times> int" where
  "loop_body prevDate currentDate acc =
     (let diffTime = currentDate - prevDate;
          diffDays = math_round_div diffTime msPerDay;
          cur = (if diffDays = 1 then fst acc + 1
                 else if diffDays > 1 then 1
                 else fst acc);
          lng = (if cur > snd acc then cur else snd acc)
      in (cur, lng))"

text \<open>
  The loop \<^verbatim>\<open>for (let i = 1; i < completed.length; i++)\<close>, reading
  \<^verbatim>\<open>completed[i]\<close> and \<^verbatim>\<open>completed[i - 1]\<close>; every element of
  \<^verbatim>\<open>completed\<close> has a date (the filter before it keeps only those).
\<close>

function streak_loop :: "zone \<Rightarrow> Problem list \<Rightarrow> nat \<Rightarrow> int \<times> int \<Rightarrow> int \<times> int" where
  "streak_loop z cs i acc =
     (if i < length cs then
        streak_loop z cs (i + 1)
          (loop_body (getTime z (the (completedDate (cs ! (i - 1)))))
                     (getTime z (the (completedDate (cs ! i)))) acc)
      else acc)"
  by pat_completeness auto
termination
  by (relation "measure (\<lambda>(z, cs, i, acc). length cs - i)") auto

declare streak_loop.simps [simp del]

text \<open>
  The list \<^verbatim>\<open>completed\<close>: the problems that are completed and carry a date, sorted
  by the time of their date (\<^verbatim>\<open>Array.prototype.sort\<close> is stable, as is
  \<open>sort_key\<close>).
\<close>

definition completed_sorted :: "zone \<Rightarrow> Problem list \<Rightarrow> Problem list" where
  "completed_sorted z problemList =
     sort_key (\<lambda>p. getTime z (the (completedDate p)))
       (filter (\<lambda>p. completed p \<and> completedDate p \<noteq> None) problemList)"

text \<open>
  \<^verbatim>\<open>recalculateStatsFromHistory(problemList)\<close>, called at time \<open>now\<close> in a render
  whose Stats are \<open>st\<close>; the result is the value given to \<^verbatim>\<open>setStats\<close>.
  \<open>init\<close> is the pair (\<^verbatim>\<open>currentStreak\<close>, \<^verbatim>\<open>longestStreak\<close>) before the loop.
\<close>

definition recalculateStatsFromHistory ::
    "zone \<Rightarrow> millis \<Rightarrow> Stats \<Rightarrow> Problem list \<Rightarrow> Stats" where
  "recalculateStatsFromHistory z now st problemList =
     (let cs = completed_sorted z problemList in
      if length cs = 0 then
        \<lparr>currentStreak = 0, longestStreak = longestStreak st,
         totalCompleted = 0, lastCompletedDate = None\<rparr>
      else
        (let init = (if length cs > 0 then (1, 1) else (0, 0));
             acc = streak_loop z cs 1 init;
             lastCompleted = cs ! (length cs - 1);
             lastDate = getTime z (the (completedDate lastCompleted));
             diffTimeFromToday = now - lastDate;
             diffDaysFromToday = math_floor_div diffTimeFromToday msPerDay;
             cur = (if diffDaysFromToday > 1 then 0 else fst acc)
         in \<lparr>currentStreak = cur,
             longestStreak = max (longestStreak st) (snd acc),
             totalCompleted = int (length cs),
             lastCompletedDate = completedDate lastCompleted\<rparr>))"

subsection \<open>markComplete and markIncomplete\<close>

text \<open>
  \<^verbatim>\<open>markComplete(problemId)\<close> at time \<open>now\<close>. The function returns nothing and has
  no failing branch; the confetti is left out.
\<close>

definition markComplete :: "zone \<Rightarrow> millis \<Rightarrow> string \<Rightarrow> AppState \<Rightarrow> AppState" where
  "markComplete z now problemId s =
     (let today = toDateString z now;
          updatedProblems =
            map (\<lambda>p. if id_p p = problemId
                      then p\<lparr>completed := True, completedDate := Some today\<rparr>
                      else p) (problems s);
          newTotalCompleted = totalCompleted (stats s) + 1;
          newCurrentStreak =
            (case lastCompletedDate (stats s) of
               Some l \<Rightarrow>
                 (let lastDate = getTime z l
                  in if toDateString z lastDate = yesterdayDateString z now
                     then currentStreak (stats s) + 1
                     else if toDateString z lastDate \<noteq> today then 1
                     else currentStreak (stats s))
             | None \<Rightarrow> 1)
      in \<lparr>problems = updatedProblems,
          stats = \<lparr>currentStreak = newCurrentStreak,
                   longestStreak = max (longestStreak (stats s)) newCurrentStreak,
                   totalCompleted = newTotalCompleted,
                   lastCompletedDate = Some today\<rparr>\<rparr>)"

text \<open>\<^verbatim>\<open>markIncomplete(problemId)\<close> at time \<open>now\<close>.\<close>

definition markIncomplete :: "zone \<Rightarrow> millis \<Rightarrow> string \<Rightarrow> AppState \<Rightarrow> AppState" where
  "markIncomplete z now problemId s =
     (let updatedProblems =
            map (\<lambda>p. if id_p p = problemId
                      then p\<lparr>completed := False, completedDate := None\<rparr>
                      else p) (problems s)
      in \<lparr>problems = updatedProblems,
          stats = recalculateStatsFromHistory z now (stats s) updatedProblems\<rparr>)"

text \<open>
  \<^verbatim>\<open>completedProblems.length\<close> of the page: the number of problems whose
  \<^verbatim>\<open>completed\<close> flag is set.
\<close>

definition completedCount :: "Problem list \<Rightarrow> nat" where
  "completedCount ps = length (filter completed ps)"

subsection \<open>Sequences of operations\<close>

text \<open>
  One user action: a handler and the time it runs at. \<open>Recompute\<close> is a call of
  \<^verbatim>\<open>recalculateStatsFromHistory(problems)\<close> on the store as it is.
\<close>

datatype Operation = MarkComplete string | MarkIncomplete string | Recompute

fun apply_operation :: "zone \<Rightarrow> millis \<times> Operation \<Rightarrow> AppState \<Rightarrow> AppState" where
  "apply_operation z (now, MarkComplete i) s = markComplete z now i s"
| "apply_operation z (now, MarkIncomplete i) s = markIncomplete z now i s"
| "apply_operation z (now, Recompute) s =
     s\<lparr>stats := recalculateStatsFromHistory z now (stats s) (problems s)\<rparr>"

definition run_operations :: "zone \<Rightarrow> (millis \<times> Operation) list \<Rightarrow> AppState \<Rightarrow> AppState" where
  "run_operations z ops s = fold (apply_operation z) ops s"

subsection \<open>The walk of the recomputation, in the words of the specification\<close>

text \<open>
  The rounded day gap of an adjacent pair of the sorted list, as the loop computes it:
  \<^verbatim>\<open>Math.round((currentDate.getTime() - prevDate.getTime()) / (1000*60*60*24))\<close>.
\<close>

definition day_gap :: "zone \<Rightarrow> date_string \<Rightarrow> date_string \<Rightarrow> int" where
  "day_gap z prev cur = math_round_div (getTime z cur - getTime z prev) msPerDay"

text \<open>
  Section 4.2, step 3 of the specification, on the list of dates: the running streak is
  1 at the first element; at each further element a gap of 1 adds one, a gap above 1
  resets to 1, and a gap of 0 (the remaining case on a list sorted ascending) leaves
  it as it is. \<open>spec_running z ds k\<close> is the running streak at element \<open>k\<close>.
\<close>

fun spec_running :: "zone \<Rightarrow> date_string list \<Rightarrow> nat \<Rightarrow> int" where
  "spec_running z ds 0 = 1"
| "spec_running z ds (Suc k) =
     (let g = day_gap z (ds ! k) (ds ! Suc k)
      in if g = 1 then spec_running z ds k + 1
         else if g > 1 then 1
         else spec_running z ds k)"

text \<open>The candidate longest streak: the maximum running streak seen up to element \<open>k\<close>.\<close>

definition spec_candidate :: "zone \<Rightarrow> date_string list \<Rightarrow> nat \<Rightarrow> int" where
  "spec_candidate z ds k = Max (set (map (spec_running z ds) [0..<Suc k]))"

text \<open>The dates of a list of problems that all carry one.\<close>

definition dates_of :: "Problem list \<Rightarrow> date_string list" where
  "dates_of cs = map (\<lambda>p. the (completedDate p)) cs"

subsection \<open>Names for the two callbacks and example stores\<close>

text \<open>The callback \<^verbatim>\<open>markComplete\<close> maps over the problems, for the day \<open>t\<close>.\<close>

definition complete_entry :: "date_string \<Rightarrow> string \<Rightarrow> Problem \<Rightarrow> Problem" where
  "complete_entry t i p =
     (if id_p p = i then p\<lparr>completed := True, completedDate := Some t\<rparr> else p)"

text \<open>The callback \<^verbatim>\<open>markIncomplete\<close> maps over the problems.\<close>

definition clear_entry :: "string \<Rightarrow> Problem \<Rightarrow> Problem" where
  "clear_entry i p =
     (if id_p p = i then p\<lparr>completed := False, completedDate := None\<rparr> else p)"

text \<open>
  Two problems as \<^verbatim>\<open>parseProblems\<close> creates them, and stores built from them:
  a fresh store, and the store after the first problem was completed on day 0.
\<close>

definition problem_a :: Problem where
  "problem_a = \<lparr>id_p = ''problem-1-0'', title = ''Two Sum'', url = [],
                 platform = ''Unknown'', completed = False, completedDate = None\<rparr>"

definition problem_b :: Problem where
  "problem_b = \<lparr>id_p = ''problem-1-1'', title = ''Watermelon'', url = [],
                 platform = ''Unknown'', completed = False, completedDate = None\<rparr>"

definition fresh_store :: AppState where
  "fresh_store = \<lparr>problems = [problem_a, problem_b], stats = initialStats\<rparr>"

definition store_a_done :: AppState where
  "store_a_done =
     \<lparr>problems = [problem_a\<lparr>completed := True, completedDate := Some 0\<rparr>, problem_b],
      stats = \<lparr>currentStreak = 1, longestStreak = 1, totalCompleted = 1,
               lastCompletedDate = Some 0\<rparr>\<rparr>"

text \<open>
  A problem list in the order of the page, with five completions on the days 1, 0, 1,
  5 and 2 and one problem not completed.
\<close>

definition history_example :: "Problem list" where
  "history_example =
     [problem_a\<lparr>completed := True, completedDate := Some 1\<rparr>,
      problem_a\<lparr>id_p := ''problem-2-0'', completed := True, completedDate := Some 0\<rparr>,
      problem_b,
      problem_a\<lparr>id_p := ''problem-2-1'', completed := True, completedDate := Some 1\<rparr>,
      problem_a\<lparr>id_p := ''problem-2-2'', completed := True, completedDate := Some 5\<rparr>,
      problem_a\<lparr>id_p := ''problem-2-3'', completed := True, completedDate := Some 2\<rparr>]"

text \<open>
  A store in the zone \<open>fall_back_zone\<close>: two problems were completed on the days 0 and
  1, a third one is not completed; the Stats are those a recomputation late on day 2
  (at \<open>late_on_day_2\<close>, 23:30 local time) leaves after a longest streak of 2.
\<close>

definition late_on_day_2 :: millis where
  "late_on_day_2 = 2 * msPerDay + 3600000 + 84600000"

definition fall_back_store :: AppState where
  "fall_back_store =
     \<lparr>problems =
        [problem_a\<lparr>completed := True, completedDate := Some 0\<rparr>,
         problem_a\<lparr>id_p := ''problem-2-0'', completed := True, completedDate := Some 1\<rparr>,
         problem_b],
      stats = \<lparr>currentStreak = 0, longestStreak = 2, totalCompleted = 2,
               lastCompletedDate = Some 1\<rparr>\<rparr>"

text \<open>The order of the two streak counters that every operation keeps.\<close>

definition streaks_ordered :: "Stats \<Rightarrow> bool" where
  "streaks_ordered st \<longleftrightarrow> 0 \<le> longestStreak st \<and> currentStreak st \<le> longestStreak st"

section \<open>Properties\<close>

subsection \<open>The loop against the walk of the specification\<close>

lemma spec_candidate_0: "spec_candidate z ds 0 = 1"
  by (simp add: spec_candidate_def)

lemma spec_candidate_Suc:
  "spec_candidate z ds (Suc k) = max (spec_candidate z ds k) (spec_running z ds (Suc k))"
proof -
  have "set (map (spec_running z ds) [0..<Suc (Suc k)]) =
        insert (spec_running z ds (Suc k)) (set (map (spec_running z ds) [0..<Suc k]))"
    by auto
  then show ?thesis
    unfolding spec_candidate_def
    by (simp only: Max_insert[OF finite_set] max.commute) (simp add: max.commute)
qed

lemma length_dates_of: "length (dates_of cs) = length cs"
  by (simp add: dates_of_def)

lemma loop_body_spec:
  "Suc k < length cs \<Longrightarrow>
   loop_body (getTime z (the (completedDate (cs ! k))))
     (getTime z (the (completedDate (cs ! Suc k))))
     (spec_running z (dates_of cs) k, spec_candidate z (dates_of cs) k) =
   (spec_running z (dates_of cs) (Suc k), spec_candidate z (dates_of cs) (Suc k))"
  by (auto simp: loop_body_def Let_def spec_candidate_Suc dates_of_def day_gap_def max_def)

lemma streak_loop_spec_from:
  "1 \<le> i \<Longrightarrow> i \<le> length cs \<Longrightarrow>
   acc = (spec_running z (dates_of cs) (i - 1), spec_candidate z (dates_of cs) (i - 1)) \<Longrightarrow>
   streak_loop z cs i acc =
     (spec_running z (dates_of cs) (length cs - 1),
      spec_candidate z (dates_of cs) (length cs - 1))"
proof (induction z cs i acc rule: streak_loop.induct)
  case (1 z cs i acc)
  show ?case
  proof (cases "i < length cs")
    case True
    from "1.prems" obtain k where k: "i = Suc k" by (cases i) auto
    have body: "loop_body (getTime z (the (completedDate (cs ! (i - 1)))))
                  (getTime z (the (completedDate (cs ! i)))) acc =
                (spec_running z (dates_of cs) i, spec_candidate z (dates_of cs) i)"
      using loop_body_spec[of k cs z] True k "1.prems"(3) by simp
    have "streak_loop z cs (i + 1)
            (loop_body (getTime z (the (completedDate (cs ! (i - 1)))))
                  (getTime z (the (completedDate (cs ! i)))) acc) =
          (spec_running z (dates_of cs) (length cs - 1),
           spec_candidate z (dates_of cs) (length cs - 1))"
      using "1.IH"[OF True] True body by simp
    then show ?thesis
      using True by (subst streak_loop.simps) simp
  next
    case False
    with "1.prems" have "i = length cs" by simp
    then show ?thesis
      using "1.prems"(3) by (subst streak_loop.simps) simp
  qed
qed

lemma streak_loop_spec:
  "cs \<noteq> [] \<Longrightarrow>
   streak_loop z cs 1 (1, 1) =
     (spec_running z (dates_of cs) (length cs - 1),
      spec_candidate z (dates_of cs) (length cs - 1))"
  using streak_loop_spec_from[of 1 cs "(1, 1)" z]
  by (cases cs) (simp_all add: spec_candidate_0)

lemma math_round_div_nonneg: "0 \<le> a \<Longrightarrow> 0 \<le> math_round_div a msPerDay"
  by (simp add: math_round_div_def msPerDay_def pos_imp_zdiv_nonneg_iff)

lemma sorted_gap_nonneg:
  assumes "sorted (map (\<lambda>p. getTime z (the (completedDate p))) cs)" "Suc k < length cs"
  shows "0 \<le> day_gap z (dates_of cs ! k) (dates_of cs ! Suc k)"
proof -
  have "map (\<lambda>p. getTime z (the (completedDate p))) cs ! k
          \<le> map (\<lambda>p. getTime z (the (completedDate p))) cs ! Suc k"
    using assms by (simp add: sorted_iff_nth_mono del: nth_map)
  then have "getTime z (dates_of cs ! k) \<le> getTime z (dates_of cs ! Suc k)"
    using assms(2) by (simp add: dates_of_def)
  then show ?thesis
    unfolding day_gap_def by (intro math_round_div_nonneg) simp
qed

subsection \<open>The result of a recomputation\<close>

lemma completed_sorted_has_date:
  "p \<in> set (completed_sorted z ps) \<Longrightarrow> completed p \<and> completedDate p \<noteq> None"
  by (auto simp: completed_sorted_def)

lemma completed_sorted_of_sorted:
  assumes "\<forall>p\<in>set cs. completed p \<and> completedDate p \<noteq> None"
    and "sorted (map (\<lambda>p. getTime z (the (completedDate p))) cs)"
  shows "completed_sorted z cs = cs"
proof -
  have "filter (\<lambda>p. completed p \<and> completedDate p \<noteq> None) cs = cs"
    using assms(1) by (simp add: filter_id_conv)
  then show ?thesis
    using assms(2) by (simp add: completed_sorted_def sort_key_id_if_sorted)
qed

lemma recalc_empty:
  "completed_sorted z ps = [] \<Longrightarrow>
   recalculateStatsFromHistory z now st ps =
     \<lparr>currentStreak = 0, longestStreak = longestStreak st,
      totalCompleted = 0, lastCompletedDate = None\<rparr>"
  by (simp add: recalculateStatsFromHistory_def)

lemma recalc_nonempty:
  assumes "completed_sorted z ps \<noteq> []"
  defines "ds \<equiv> dates_of (completed_sorted z ps)"
  shows "recalculateStatsFromHistory z now st ps =
     \<lparr>currentStreak = (if math_floor_div (now - getTime z (last ds)) msPerDay > 1 then 0
                        else spec_running z ds (length ds - 1)),
      longestStreak = max (longestStreak st) (spec_candidate z ds (length ds - 1)),
      totalCompleted = int (length ds),
      lastCompletedDate = Some (last ds)\<rparr>"
proof -
  let ?cs = "completed_sorted z ps"
  let ?l = "?cs ! (length ?cs - 1)"
  have l_in: "?l \<in> set ?cs" using assms(1) by simp
  then obtain d where d: "completedDate ?l = Some d"
    using completed_sorted_has_date by blast
  have "last ds = the (completedDate ?l)"
    using assms(1) by (simp add: ds_def dates_of_def last_map last_conv_nth)
  with d have last: "last ds = d" by simp
  have loop: "streak_loop z ?cs (Suc 0) (1, 1) =
      (spec_running z ds (length ds - 1), spec_candidate z ds (length ds - 1))"
    using streak_loop_spec[OF assms(1)] by (simp add: ds_def length_dates_of)
  show ?thesis
    using assms(1) d last loop
    by (simp add: recalculateStatsFromHistory_def Let_def ds_def length_dates_of)
qed

text \<open>
  Claim C6: recalculateStatsFromHistory walks the list \<open>completed_sorted z ps\<close>, the
  completed problems sorted ascending by date (every non-empty sorted list of completed
  problems is such a list, \<open>completed_sorted_of_sorted\<close>). When
  that list is not empty, the currentStreak it sets, read at the time of the last
  completion where nothing has lapsed, is the running streak of the specification at
  the last element (1 at the first element; per adjacent pair a rounded gap of 1 adds
  one, a gap above 1 resets to 1, a gap of 0 changes nothing), and the longestStreak it
  sets is the maximum of the previous longestStreak and the largest running streak of
  the walk. No rounded gap is negative, so the three cases are all there are.
\<close>

theorem recompute_walk:
  assumes "completed_sorted z ps \<noteq> []"
  shows "currentStreak
           (recalculateStatsFromHistory z
              (getTime z (last (dates_of (completed_sorted z ps)))) st ps) =
           spec_running z (dates_of (completed_sorted z ps))
             (length (completed_sorted z ps) - 1) \<and>
         longestStreak (recalculateStatsFromHistory z now st ps) =
           max (longestStreak st)
             (spec_candidate z (dates_of (completed_sorted z ps))
                (length (completed_sorted z ps) - 1)) \<and>
         (\<forall>k. Suc k < length (completed_sorted z ps) \<longrightarrow>
            0 \<le> day_gap z (dates_of (completed_sorted z ps) ! k)
                   (dates_of (completed_sorted z ps) ! Suc k))"
proof -
  have "sorted (map (\<lambda>p. getTime z (the (completedDate p))) (completed_sorted z ps))"
    unfolding completed_sorted_def by (rule sorted_sort_key)
  then have gaps: "\<forall>k. Suc k < length (completed_sorted z ps) \<longrightarrow>
            0 \<le> day_gap z (dates_of (completed_sorted z ps) ! k)
                   (dates_of (completed_sorted z ps) ! Suc k)"
    using sorted_gap_nonneg by blast
  have "math_floor_div (t - t) msPerDay = 0" for t :: int
    by (simp add: math_floor_div_def)
  then have cur: "currentStreak
           (recalculateStatsFromHistory z
              (getTime z (last (dates_of (completed_sorted z ps)))) st ps) =
           spec_running z (dates_of (completed_sorted z ps))
             (length (completed_sorted z ps) - 1)"
    by (simp add: recalc_nonempty[OF assms] length_dates_of)
  have lng: "longestStreak (recalculateStatsFromHistory z now st ps) =
           max (longestStreak st)
             (spec_candidate z (dates_of (completed_sorted z ps))
                (length (completed_sorted z ps) - 1))"
    by (simp add: recalc_nonempty[OF assms] length_dates_of)
  from cur lng gaps show ?thesis by blast
qed

text \<open>
  Witness for C6, in a zone where day 1 lasts 25 hours: the example list has the sorted
  dates 0, 1, 1, 2, 5 and the running streaks 1, 2, 2, 3, 1 (the gap of 25 hours
  rounds to 1); at the time of the last completion the recomputation sets currentStreak
  1 and, from the zeroed Stats, longestStreak 3.
\<close>

theorem recompute_walk_witness:
  "completed_sorted fall_back_zone history_example \<noteq> [] \<and>
   dates_of (completed_sorted fall_back_zone history_example) = [0, 1, 1, 2, 5] \<and>
   map (spec_running fall_back_zone [0, 1, 1, 2, 5]) [0, 1, 2, 3, 4] = [1, 2, 2, 3, 1] \<and>
   currentStreak (recalculateStatsFromHistory fall_back_zone (getTime fall_back_zone 5)
                    initialStats history_example) = 1 \<and>
   longestStreak (recalculateStatsFromHistory fall_back_zone (getTime fall_back_zone 5)
                    initialStats history_example) = 3"
proof -
  have ne: "completed_sorted fall_back_zone history_example \<noteq> []"
    by code_simp
  have ds: "dates_of (completed_sorted fall_back_zone history_example) = [0, 1, 1, 2, 5]"
    by code_simp
  have n: "length (completed_sorted fall_back_zone history_example) - 1 = 4"
    by code_simp
  have run: "map (spec_running fall_back_zone [0, 1, 1, 2, 5]) [0, 1, 2, 3, 4]
               = [1, 2, 2, 3, 1]"
    by code_simp
  have r: "spec_running fall_back_zone [0, 1, 1, 2, 5] 4 = 1"
    by code_simp
  have c: "spec_candidate fall_back_zone [0, 1, 1, 2, 5] 4 = 3"
    by code_simp
  have l: "longestStreak initialStats = 0"
    by (simp add: initialStats_def)
  note w = recompute_walk[OF ne, of initialStats "getTime fall_back_zone 5",
      unfolded ds n r c l]
  from w have "currentStreak (recalculateStatsFromHistory fall_back_zone
                 (getTime fall_back_zone 5) initialStats history_example) = 1"
    by (simp add: getTime_def)
  moreover from w have "longestStreak (recalculateStatsFromHistory fall_back_zone
                 (getTime fall_back_zone 5) initialStats history_example) = 3"
    by simp
  ultimately show ?thesis
    using ne ds run by simp
qed

text \<open>
  Claim C7: on a non-empty completed history the recomputation sets currentStreak to
  the running streak at the last element of the sorted history, unless the floored
  number of days between now and the last completion date is above 1, when it sets 0;
  lastCompletedDate is the date of the last sorted element in both cases.
\<close>

theorem recompute_current_and_last:
  assumes "completed_sorted z ps \<noteq> []"
  shows "currentStreak (recalculateStatsFromHistory z now st ps) =
           (if math_floor_div
                 (now - getTime z (last (dates_of (completed_sorted z ps)))) msPerDay > 1
            then 0
            else spec_running z (dates_of (completed_sorted z ps))
                   (length (completed_sorted z ps) - 1)) \<and>
         lastCompletedDate (recalculateStatsFromHistory z now st ps) =
           Some (last (dates_of (completed_sorted z ps)))"
  using recalc_nonempty[OF assms, of now st]
  by (simp add: length_dates_of)

text \<open>
  Witness for C7: five days after the only completion (day 0) the streak has lapsed;
  the last completion date is still day 0.
\<close>

theorem recompute_current_and_last_witness:
  "completed_sorted (offset_zone 0) (problems store_a_done) \<noteq> [] \<and>
   currentStreak (recalculateStatsFromHistory (offset_zone 0) (5 * msPerDay) initialStats
                    (problems store_a_done)) = 0 \<and>
   lastCompletedDate (recalculateStatsFromHistory (offset_zone 0) (5 * msPerDay) initialStats
                        (problems store_a_done)) = Some 0"
proof -
  have ne: "completed_sorted (offset_zone 0) (problems store_a_done) \<noteq> []"
    by (simp add: completed_sorted_def store_a_done_def problem_a_def problem_b_def)
  have d: "dates_of (completed_sorted (offset_zone 0) (problems store_a_done)) = [0]"
    by (simp add: dates_of_def completed_sorted_def store_a_done_def problem_a_def
          problem_b_def)
  have f: "math_floor_div (5 * msPerDay - getTime (offset_zone 0) 0) msPerDay = 5"
    by (simp add: math_floor_div_def getTime_def offset_zone_def msPerDay_def)
  show ?thesis
    using recompute_current_and_last[OF ne, of "5 * msPerDay" initialStats] ne
    by (simp add: d f)
qed

text \<open>
  Claim C8: recomputation is idempotent: a second recalculateStatsFromHistory on the
  same problems at the same moment, reading the Stats the first one set, sets the same
  Stats again.
\<close>

theorem recompute_idempotent:
  "recalculateStatsFromHistory z now (recalculateStatsFromHistory z now st ps) ps =
   recalculateStatsFromHistory z now st ps"
  by (simp add: recalculateStatsFromHistory_def Let_def)

subsection \<open>Invariants of the streak counters\<close>

lemma longestStreak_step:
  "longestStreak (stats s) \<le> longestStreak (stats (apply_operation z op s))"
  by (cases "(z, op, s)" rule: apply_operation.cases)
     (auto simp: markComplete_def markIncomplete_def recalculateStatsFromHistory_def Let_def
           split: option.splits)

lemma longestStreak_fold:
  "longestStreak (stats s) \<le> longestStreak (stats (fold (apply_operation z) ops s))"
proof (induction ops arbitrary: s)
  case Nil
  show ?case by simp
next
  case (Cons op ops)
  have "longestStreak (stats s) \<le> longestStreak (stats (apply_operation z op s))"
    by (rule longestStreak_step)
  also have "\<dots> \<le> longestStreak
                     (stats (fold (apply_operation z) ops (apply_operation z op s)))"
    by (rule Cons.IH)
  finally show ?case by simp
qed

text \<open>
  Claim C4: longestStreak never decreases: after any sequence of markComplete,
  markIncomplete and recompute operations, run at any times on any store, it is at
  least what it was before (a single operation is the sequence of length one; the
  branch of the recomputation for an empty history keeps the old value).
\<close>

theorem longestStreak_monotone:
  "longestStreak (stats s) \<le> longestStreak (stats (run_operations z ops s))"
  unfolding run_operations_def by (rule longestStreak_fold)

lemma loop_body_inv:
  "1 \<le> snd acc \<Longrightarrow>
   fst (loop_body a b acc) \<le> snd (loop_body a b acc) \<and> 1 \<le> snd (loop_body a b acc)"
  by (simp add: loop_body_def Let_def)

lemma streak_loop_inv:
  "fst acc \<le> snd acc \<Longrightarrow> 1 \<le> snd acc \<Longrightarrow>
   fst (streak_loop z cs i acc) \<le> snd (streak_loop z cs i acc) \<and>
   1 \<le> snd (streak_loop z cs i acc)"
proof (induction z cs i acc rule: streak_loop.induct)
  case (1 z cs i acc)
  show ?case
  proof (cases "i < length cs")
    case True
    let ?acc = "loop_body (getTime z (the (completedDate (cs ! (i - 1)))))
                  (getTime z (the (completedDate (cs ! i)))) acc"
    have "fst ?acc \<le> snd ?acc \<and> 1 \<le> snd ?acc"
      using "1.prems"(2) by (rule loop_body_inv)
    then have "fst (streak_loop z cs (i + 1) ?acc) \<le> snd (streak_loop z cs (i + 1) ?acc) \<and>
               1 \<le> snd (streak_loop z cs (i + 1) ?acc)"
      using "1.IH"[OF True] by simp
    then show ?thesis
      using True by (subst (1 2 3) streak_loop.simps) simp
  next
    case False
    then show ?thesis
      using "1.prems" by (subst (1 2 3) streak_loop.simps) simp
  qed
qed

lemma recalc_streaks_ordered:
  assumes "0 \<le> longestStreak st"
  shows "streaks_ordered (recalculateStatsFromHistory z now st ps)"
proof -
  have "fst (streak_loop z (completed_sorted z ps) 1 (1, 1))
          \<le> snd (streak_loop z (completed_sorted z ps) 1 (1, 1)) \<and>
        1 \<le> snd (streak_loop z (completed_sorted z ps) 1 (1, 1))"
    by (rule streak_loop_inv) simp_all
  then show ?thesis
    using assms
    by (auto simp: streaks_ordered_def recalculateStatsFromHistory_def Let_def)
qed

lemma markComplete_streaks_ordered:
  "0 \<le> longestStreak (stats s) \<Longrightarrow> streaks_ordered (stats (markComplete z now i s))"
  by (simp add: streaks_ordered_def markComplete_def Let_def)

lemma step_streaks_ordered:
  "streaks_ordered (stats s) \<Longrightarrow> streaks_ordered (stats (apply_operation z op s))"
  by (cases "(z, op, s)" rule: apply_operation.cases)
     (simp_all add: markComplete_streaks_ordered recalc_streaks_ordered markIncomplete_def
        Let_def streaks_ordered_def[of "stats s"])

lemma fold_streaks_ordered:
  "streaks_ordered (stats s) \<Longrightarrow> streaks_ordered (stats (fold (apply_operation z) ops s))"
  by (induction ops arbitrary: s) (simp_all add: step_streaks_ordered)

text \<open>
  Claim C10: starting from the zeroed Stats (on any problem list), after every sequence
  of markComplete, markIncomplete and recompute operations currentStreak is at most
  longestStreak.
\<close>

theorem currentStreak_le_longestStreak:
  assumes "stats s = initialStats"
  shows "currentStreak (stats (run_operations z ops s))
           \<le> longestStreak (stats (run_operations z ops s))"
proof -
  have "streaks_ordered (stats s)"
    using assms by (simp add: streaks_ordered_def initialStats_def)
  then have "streaks_ordered (stats (fold (apply_operation z) ops s))"
    by (rule fold_streaks_ordered)
  then show ?thesis
    by (simp add: streaks_ordered_def run_operations_def)
qed

text \<open>
  Witness for C10: two completions on consecutive days, then the first one unmarked and
  a recomputation two days later: currentStreak is 0 and longestStreak is 2.
\<close>

theorem currentStreak_le_longestStreak_witness:
  "stats fresh_store = initialStats \<and>
   currentStreak (stats (run_operations (offset_zone 0)
       [(5, MarkComplete ''problem-1-0''), (msPerDay + 5, MarkComplete ''problem-1-1''),
        (3 * msPerDay, MarkIncomplete ''problem-1-0''), (3 * msPerDay, Recompute)]
       fresh_store))
   \<le> longestStreak (stats (run_operations (offset_zone 0)
       [(5, MarkComplete ''problem-1-0''), (msPerDay + 5, MarkComplete ''problem-1-1''),
        (3 * msPerDay, MarkIncomplete ''problem-1-0''), (3 * msPerDay, Recompute)]
       fresh_store))"
proof -
  have h: "stats fresh_store = initialStats"
    by (simp add: fresh_store_def)
  show ?thesis
    using h currentStreak_le_longestStreak[OF h] by simp
qed

subsection \<open>The problem list after markComplete and markIncomplete\<close>

lemma markComplete_problems:
  "problems (markComplete z now i s) =
   map (complete_entry (toDateString z now) i) (problems s)"
  by (simp add: markComplete_def complete_entry_def Let_def)

lemma markIncomplete_problems:
  "problems (markIncomplete z now i s) = map (clear_entry i) (problems s)"
  by (simp add: markIncomplete_def clear_entry_def Let_def)

lemma markIncomplete_stats:
  "stats (markIncomplete z now i s) =
   recalculateStatsFromHistory z now (stats s) (map (clear_entry i) (problems s))"
proof -
  have "clear_entry i =
        (\<lambda>p. if id_p p = i then p\<lparr>completed := False, completedDate := None\<rparr> else p)"
    by (rule ext) (simp add: clear_entry_def)
  then show ?thesis
    by (simp add: markIncomplete_def Let_def)
qed

lemma markComplete_totalCompleted:
  "totalCompleted (stats (markComplete z now i s)) = totalCompleted (stats s) + 1"
  by (simp add: markComplete_def Let_def)

lemma markComplete_lastCompletedDate:
  "lastCompletedDate (stats (markComplete z now i s)) = Some (toDateString z now)"
  by (simp add: markComplete_def Let_def)

lemma markComplete_longestStreak:
  "longestStreak (stats (markComplete z now i s)) =
   max (longestStreak (stats s)) (currentStreak (stats (markComplete z now i s)))"
  by (simp add: markComplete_def Let_def)

lemma markComplete_stats_any_id:
  "stats (markComplete z now i s) = stats (markComplete z now j s)"
  by (simp add: markComplete_def Let_def)

lemma map_complete_entry_other:
  "\<forall>q\<in>set qs. id_p q \<noteq> i \<Longrightarrow> map (complete_entry t i) qs = qs"
  by (induction qs) (auto simp: complete_entry_def)

lemma completedCount_flags:
  "completedCount ps = length (filter (\<lambda>b. b) (map completed ps))"
  by (simp add: completedCount_def filter_map comp_def)

lemma flags_complete_entry_done:
  assumes "distinct (map id_p ps)" "p \<in> set ps" "completed p"
  shows "map completed (map (complete_entry t (id_p p)) ps) = map completed ps"
proof -
  have "completed (complete_entry t (id_p p) q) = completed q" if "q \<in> set ps" for q
  proof (cases "id_p q = id_p p")
    case True
    with assms(1,2) that have "q = p"
      by (meson distinct_map inj_on_eq_iff)
    then show ?thesis using assms(3) by (simp add: complete_entry_def)
  next
    case False
    then show ?thesis by (simp add: complete_entry_def)
  qed
  then show ?thesis by simp
qed

lemma completedCount_complete_entry_new:
  "distinct (map id_p ps) \<Longrightarrow> p \<in> set ps \<Longrightarrow> \<not> completed p \<Longrightarrow>
   completedCount (map (complete_entry t (id_p p)) ps) = Suc (completedCount ps)"
proof (induction ps)
  case Nil
  then show ?case by simp
next
  case (Cons q qs)
  show ?case
  proof (cases "q = p")
    case True
    from Cons.prems(1) True have "\<forall>r\<in>set qs. id_p r \<noteq> id_p p" by (auto simp: image_iff)
    then have rest: "map (complete_entry t (id_p p)) qs = qs" by (rule map_complete_entry_other)
    have hd: "complete_entry t (id_p p) p = p\<lparr>completed := True, completedDate := Some t\<rparr>"
      by (simp add: complete_entry_def)
    show ?thesis
      using True Cons.prems(3) by (simp add: rest hd completedCount_def)
  next
    case False
    with Cons.prems have p_in: "p \<in> set qs" by simp
    with Cons.prems(1) have "id_p q \<noteq> id_p p" by auto
    then have "complete_entry t (id_p p) q = q" by (simp add: complete_entry_def)
    moreover from Cons.prems(1) have "distinct (map id_p qs)" by simp
    ultimately show ?thesis
      using Cons.IH p_in Cons.prems(3) by (simp add: completedCount_def)
  qed
qed

lemma recalc_totalCompleted:
  "totalCompleted (recalculateStatsFromHistory z now st ps) =
   int (length (filter (\<lambda>p. completed p \<and> completedDate p \<noteq> None) ps))"
proof -
  have "length (completed_sorted z ps) =
        length (filter (\<lambda>p. completed p \<and> completedDate p \<noteq> None) ps)"
    by (simp add: completed_sorted_def)
  then show ?thesis
    by (cases "completed_sorted z ps = []")
       (simp_all add: recalculateStatsFromHistory_def Let_def)
qed

lemma recalc_totalCompleted_count:
  assumes "\<forall>q\<in>set ps. completed q \<longrightarrow> completedDate q \<noteq> None"
  shows "totalCompleted (recalculateStatsFromHistory z now st ps) = int (completedCount ps)"
proof -
  have "filter (\<lambda>p. completed p \<and> completedDate p \<noteq> None) ps = filter completed ps"
    using assms by (intro filter_cong) auto
  then show ?thesis
    by (simp add: recalc_totalCompleted completedCount_def)
qed

text \<open>
  Claim C1, amended: on a store with unique ids, markComplete on a problem that is
  already completed leaves every completed flag and the number of completed problems
  as they are, and adds 1 to totalCompleted: the function has no guard on the flag
  (the page shows its button only on problems not yet completed).
\<close>

theorem markComplete_completed_adds_one:
  assumes "distinct (map id_p (problems s))" "p \<in> set (problems s)" "completed p"
  shows "map completed (problems (markComplete z now (id_p p) s)) =
           map completed (problems s) \<and>
         completedCount (problems (markComplete z now (id_p p) s)) =
           completedCount (problems s) \<and>
         totalCompleted (stats (markComplete z now (id_p p) s)) =
           totalCompleted (stats s) + 1"
proof -
  have "map completed (problems (markComplete z now (id_p p) s)) = map completed (problems s)"
    unfolding markComplete_problems using assms by (rule flags_complete_entry_done)
  moreover from this
  have "completedCount (problems (markComplete z now (id_p p) s)) =
        completedCount (problems s)"
    by (simp only: completedCount_flags)
  moreover
  have "totalCompleted (stats (markComplete z now (id_p p) s)) = totalCompleted (stats s) + 1"
    by (rule markComplete_totalCompleted)
  ultimately show ?thesis by simp
qed

text \<open>
  Witness for C1: the first problem is completed (day 0, totalCompleted 1); marking it
  again on the same day keeps one completed problem and sets totalCompleted to 2.
\<close>

theorem markComplete_completed_adds_one_witness:
  "distinct (map id_p (problems store_a_done)) \<and>
   hd (problems store_a_done) \<in> set (problems store_a_done) \<and>
   completed (hd (problems store_a_done)) \<and>
   completedCount (problems (markComplete (offset_zone 0) 5 ''problem-1-0'' store_a_done)) = 1 \<and>
   totalCompleted (stats (markComplete (offset_zone 0) 5 ''problem-1-0'' store_a_done)) = 2"
proof -
  let ?p = "hd (problems store_a_done)"
  have d: "distinct (map id_p (problems store_a_done))"
    by (simp add: store_a_done_def problem_a_def problem_b_def)
  have m: "?p \<in> set (problems store_a_done)"
    by (simp add: store_a_done_def)
  have c: "completed ?p"
    by (simp add: store_a_done_def)
  have i: "id_p ?p = ''problem-1-0''"
    by (simp add: store_a_done_def problem_a_def)
  have n: "completedCount (problems store_a_done) = 1"
    by (simp add: completedCount_def store_a_done_def problem_a_def problem_b_def)
  have t: "totalCompleted (stats store_a_done) = 1"
    by (simp add: store_a_done_def)
  show ?thesis
    using markComplete_completed_adds_one[OF d m c, of "offset_zone 0" 5] d m c
    by (simp add: i n t)
qed

text \<open>
  Counterexample to C1 as stated: the first problem of the store is completed, and
  markComplete on its id changes totalCompleted from 1 to 2.
\<close>

theorem markComplete_double_count_counterexample:
  "completed (hd (problems store_a_done)) \<and>
   id_p (hd (problems store_a_done)) = ''problem-1-0'' \<and>
   totalCompleted (stats (markComplete (offset_zone 0) 5 ''problem-1-0'' store_a_done))
     \<noteq> totalCompleted (stats store_a_done)"
  by (simp add: store_a_done_def problem_a_def markComplete_def Let_def)

text \<open>
  Claim C2, amended: for an id that matches no problem, markComplete leaves the problem
  list as it is and updates Stats all the same, as it does for every id (the update
  never reads the id): totalCompleted grows by 1 and lastCompletedDate becomes today.
  Nothing is signalled: the function returns nothing and has no failing branch.
\<close>

theorem markComplete_unknown_id:
  assumes "problemId \<notin> set (map id_p (problems s))"
  shows "problems (markComplete z now problemId s) = problems s \<and>
         totalCompleted (stats (markComplete z now problemId s)) =
           totalCompleted (stats s) + 1 \<and>
         lastCompletedDate (stats (markComplete z now problemId s)) =
           Some (toDateString z now) \<and>
         stats (markComplete z now problemId s) = stats (markComplete z now other s)"
proof -
  from assms have "\<forall>q\<in>set (problems s). id_p q \<noteq> problemId" by auto
  then have "problems (markComplete z now problemId s) = problems s"
    unfolding markComplete_problems by (rule map_complete_entry_other)
  then show ?thesis
    using markComplete_stats_any_id[of z now problemId s other]
    by (simp add: markComplete_totalCompleted markComplete_lastCompletedDate)
qed

text \<open>
  Witness for C2: on the fresh store the id \<open>problem-9-9\<close> is unknown; markComplete
  keeps the two problems and gives the Stats of a first completion.
\<close>

theorem markComplete_unknown_id_witness:
  "''problem-9-9'' \<notin> set (map id_p (problems fresh_store)) \<and>
   problems (markComplete (offset_zone 0) 5 ''problem-9-9'' fresh_store) =
     problems fresh_store \<and>
   totalCompleted (stats (markComplete (offset_zone 0) 5 ''problem-9-9'' fresh_store)) = 1 \<and>
   lastCompletedDate (stats (markComplete (offset_zone 0) 5 ''problem-9-9'' fresh_store)) =
     Some 0 \<and>
   stats (markComplete (offset_zone 0) 5 ''problem-9-9'' fresh_store) =
     stats (markComplete (offset_zone 0) 5 ''problem-1-0'' fresh_store)"
proof -
  have u: "''problem-9-9'' \<notin> set (map id_p (problems fresh_store))"
    by (simp add: fresh_store_def problem_a_def problem_b_def)
  have t: "totalCompleted (stats fresh_store) + 1 = 1"
    by (simp add: fresh_store_def initialStats_def)
  have d: "toDateString (offset_zone 0) 5 = 0"
    by (simp add: toDateString_def offset_zone_def msPerDay_def)
  show ?thesis
    using markComplete_unknown_id[OF u, of "offset_zone 0" 5 "''problem-1-0''"] u
    unfolding t d by blast
qed

text \<open>
  Counterexample to C2 as stated: with an id that matches no problem of the fresh
  store, markComplete changes totalCompleted from 0 to 1 and sets lastCompletedDate.
\<close>

theorem markComplete_unknown_id_counterexample:
  "''problem-9-9'' \<notin> set (map id_p (problems fresh_store)) \<and>
   totalCompleted (stats fresh_store) = 0 \<and>
   totalCompleted (stats (markComplete (offset_zone 0) 5 ''problem-9-9'' fresh_store)) = 1 \<and>
   lastCompletedDate (stats fresh_store) = None \<and>
   lastCompletedDate (stats (markComplete (offset_zone 0) 5 ''problem-9-9'' fresh_store)) =
     Some 0"
  by (simp add: fresh_store_def problem_a_def problem_b_def initialStats_def
        markComplete_def Let_def toDateString_def offset_zone_def msPerDay_def)

text \<open>
  Claim C5, amended: when every completed problem carries a date, totalCompleted equals
  the number of problems with the completed flag after markIncomplete and after a
  recomputation; after markComplete it does when it did before the call, ids are unique
  and the id is that of a problem not yet completed (markComplete adds 1 whatever the
  id matches).
\<close>

theorem totalCompleted_counts_completed:
  assumes "\<forall>q\<in>set (problems s). completed q \<longrightarrow> completedDate q \<noteq> None"
  shows "totalCompleted (stats (markIncomplete z now i s)) =
           int (completedCount (problems (markIncomplete z now i s))) \<and>
         totalCompleted (stats (apply_operation z (now, Recompute) s)) =
           int (completedCount (problems (apply_operation z (now, Recompute) s))) \<and>
         (distinct (map id_p (problems s)) \<and> p \<in> set (problems s) \<and> \<not> completed p \<and>
          totalCompleted (stats s) = int (completedCount (problems s)) \<longrightarrow>
            totalCompleted (stats (markComplete z now (id_p p) s)) =
              int (completedCount (problems (markComplete z now (id_p p) s))))"
proof -
  have "\<forall>q\<in>set (map (clear_entry i) (problems s)). completed q \<longrightarrow> completedDate q \<noteq> None"
    using assms by (auto simp: clear_entry_def)
  then have a: "totalCompleted (stats (markIncomplete z now i s)) =
           int (completedCount (problems (markIncomplete z now i s)))"
    unfolding markIncomplete_stats markIncomplete_problems
    by (rule recalc_totalCompleted_count)
  have b: "totalCompleted (stats (apply_operation z (now, Recompute) s)) =
           int (completedCount (problems (apply_operation z (now, Recompute) s)))"
    using recalc_totalCompleted_count[OF assms, of z now "stats s"] by simp
  have c: "totalCompleted (stats (markComplete z now (id_p p) s)) =
              int (completedCount (problems (markComplete z now (id_p p) s)))"
    if "distinct (map id_p (problems s))" "p \<in> set (problems s)" "\<not> completed p"
       "totalCompleted (stats s) = int (completedCount (problems s))"
    using completedCount_complete_entry_new[OF that(1-3), of "toDateString z now"] that(4)
    by (simp add: markComplete_problems markComplete_totalCompleted)
  from a b c show ?thesis by blast
qed

text \<open>
  Witness for C5: on the store with the first problem completed (totalCompleted 1),
  unmarking it gives 0 of 0, a recomputation gives 1 of 1, and marking the second
  problem gives 2 of 2.
\<close>

theorem totalCompleted_counts_completed_witness:
  "distinct (map id_p (problems store_a_done)) \<and>
   problem_b \<in> set (problems store_a_done) \<and> \<not> completed problem_b \<and>
   totalCompleted (stats store_a_done) = int (completedCount (problems store_a_done)) \<and>
   totalCompleted (stats (markIncomplete (offset_zone 0) 5 ''problem-1-0'' store_a_done)) =
     int (completedCount
            (problems (markIncomplete (offset_zone 0) 5 ''problem-1-0'' store_a_done))) \<and>
   totalCompleted (stats (apply_operation (offset_zone 0) (5, Recompute) store_a_done)) =
     int (completedCount
            (problems (apply_operation (offset_zone 0) (5, Recompute) store_a_done))) \<and>
   totalCompleted (stats (markComplete (offset_zone 0) 5 (id_p problem_b) store_a_done)) =
     int (completedCount
            (problems (markComplete (offset_zone 0) 5 (id_p problem_b) store_a_done))) \<and>
   completedCount (problems (markComplete (offset_zone 0) 5 (id_p problem_b) store_a_done))
     = 2"
proof -
  have inv: "\<forall>q\<in>set (problems store_a_done). completed q \<longrightarrow> completedDate q \<noteq> None"
    by (simp add: store_a_done_def problem_a_def problem_b_def)
  have d: "distinct (map id_p (problems store_a_done))"
    by (simp add: store_a_done_def problem_a_def problem_b_def)
  have m: "problem_b \<in> set (problems store_a_done)"
    by (simp add: store_a_done_def)
  have c: "\<not> completed problem_b"
    by (simp add: problem_b_def)
  have t: "totalCompleted (stats store_a_done) = int (completedCount (problems store_a_done))"
    by (simp add: store_a_done_def completedCount_def problem_a_def problem_b_def)
  have n: "completedCount
             (problems (markComplete (offset_zone 0) 5 (id_p problem_b) store_a_done)) = 2"
    by code_simp
  show ?thesis
    using totalCompleted_counts_completed[OF inv,
        of "offset_zone 0" 5 "''problem-1-0''" problem_b]
      d m c t n
    by blast
qed

text \<open>
  Counterexample to C5 as stated: marking the first problem of the fresh store twice
  leaves one completed problem and totalCompleted 2.
\<close>

theorem totalCompleted_overcounts_counterexample:
  "totalCompleted (stats (run_operations (offset_zone 0)
      [(5, MarkComplete ''problem-1-0''), (6, MarkComplete ''problem-1-0'')] fresh_store)) = 2 \<and>
   completedCount (problems (run_operations (offset_zone 0)
      [(5, MarkComplete ''problem-1-0''), (6, MarkComplete ''problem-1-0'')] fresh_store)) = 1"
  by code_simp

subsection \<open>Marking and unmarking\<close>

lemma clear_complete_entry:
  assumes "\<forall>q\<in>set ps. id_p q = i \<longrightarrow> \<not> completed q \<and> completedDate q = None"
  shows "map (clear_entry i) (map (complete_entry t i) ps) = ps"
proof -
  have "clear_entry i (complete_entry t i q) = q" if "q \<in> set ps" for q
    using assms that by (cases q) (auto simp: clear_entry_def complete_entry_def)
  then show ?thesis
    by (simp add: map_idI)
qed

lemma recalc_fields_independent:
  "currentStreak (recalculateStatsFromHistory z now a ps) =
     currentStreak (recalculateStatsFromHistory z now b ps) \<and>
   totalCompleted (recalculateStatsFromHistory z now a ps) =
     totalCompleted (recalculateStatsFromHistory z now b ps) \<and>
   lastCompletedDate (recalculateStatsFromHistory z now a ps) =
     lastCompletedDate (recalculateStatsFromHistory z now b ps)"
  by (simp add: recalculateStatsFromHistory_def Let_def)

lemma recalc_longest_above:
  assumes "recalculateStatsFromHistory z now st ps = st"
    and "longestStreak st \<le> longestStreak st'"
  shows "longestStreak (recalculateStatsFromHistory z now st' ps) = longestStreak st'"
proof -
  have "longestStreak (recalculateStatsFromHistory z now st ps) = longestStreak st"
    using assms(1) by simp
  then show ?thesis
    using assms(2)
    by (auto simp: recalculateStatsFromHistory_def Let_def max_def split: if_splits)
qed

text \<open>
  Claim C9, amended: when no problem with the id of \<open>p\<close> is completed or dated and the
  Stats before the mark are those a recomputation at that moment yields, markComplete
  followed at the same moment by markIncomplete restores the problem list,
  currentStreak, totalCompleted and lastCompletedDate; longestStreak is the larger of
  its value before the mark and the currentStreak the mark reached, and is not taken
  back.
\<close>

theorem mark_unmark_round_trip:
  assumes p: "p \<in> set (problems s)"
    and fresh: "\<forall>q\<in>set (problems s). id_p q = id_p p
                  \<longrightarrow> \<not> completed q \<and> completedDate q = None"
    and sync: "recalculateStatsFromHistory z now (stats s) (problems s) = stats s"
  shows "problems (markIncomplete z now (id_p p) (markComplete z now (id_p p) s)) =
           problems s \<and>
         currentStreak (stats (markIncomplete z now (id_p p) (markComplete z now (id_p p) s))) =
           currentStreak (stats s) \<and>
         totalCompleted (stats (markIncomplete z now (id_p p) (markComplete z now (id_p p) s))) =
           totalCompleted (stats s) \<and>
         lastCompletedDate
             (stats (markIncomplete z now (id_p p) (markComplete z now (id_p p) s))) =
           lastCompletedDate (stats s) \<and>
         longestStreak (stats (markIncomplete z now (id_p p) (markComplete z now (id_p p) s))) =
           max (longestStreak (stats s))
               (currentStreak (stats (markComplete z now (id_p p) s)))"
proof -
  let ?s1 = "markComplete z now (id_p p) s"
  let ?s2 = "markIncomplete z now (id_p p) ?s1"
  have ps: "map (clear_entry (id_p p)) (problems ?s1) = problems s"
    unfolding markComplete_problems using fresh by (rule clear_complete_entry)
  then have a: "problems ?s2 = problems s"
    by (simp add: markIncomplete_problems)
  have st2: "stats ?s2 = recalculateStatsFromHistory z now (stats ?s1) (problems s)"
    by (simp add: markIncomplete_stats ps)
  have b: "currentStreak (stats ?s2) = currentStreak (stats s) \<and>
           totalCompleted (stats ?s2) = totalCompleted (stats s) \<and>
           lastCompletedDate (stats ?s2) = lastCompletedDate (stats s)"
    using recalc_fields_independent[of z now "stats ?s1" "problems s" "stats s"] sync
    by (simp add: st2)
  have l1: "longestStreak (stats ?s1) =
            max (longestStreak (stats s)) (currentStreak (stats ?s1))"
    by (rule markComplete_longestStreak)
  then have "longestStreak (stats s) \<le> longestStreak (stats ?s1)" by simp
  with sync have "longestStreak (stats ?s2) = longestStreak (stats ?s1)"
    unfolding st2 by (rule recalc_longest_above)
  with l1 have c: "longestStreak (stats ?s2) =
            max (longestStreak (stats s)) (currentStreak (stats ?s1))"
    by simp
  from a b c show ?thesis by blast
qed

text \<open>
  Witness for C9: the first problem was completed on day 0 (streak 1, longest 1); on
  day 1 the second problem is marked (streak 2) and unmarked again: streak 1, total 1
  and last day 0 are back, longestStreak is 2.
\<close>

theorem mark_unmark_round_trip_witness:
  "problem_b \<in> set (problems store_a_done) \<and>
   recalculateStatsFromHistory (offset_zone 0) (msPerDay + 5) (stats store_a_done)
       (problems store_a_done)
     = stats store_a_done \<and>
   problems (markIncomplete (offset_zone 0) (msPerDay + 5) (id_p problem_b)
               (markComplete (offset_zone 0) (msPerDay + 5) (id_p problem_b) store_a_done))
     = problems store_a_done \<and>
   stats (markIncomplete (offset_zone 0) (msPerDay + 5) (id_p problem_b)
            (markComplete (offset_zone 0) (msPerDay + 5) (id_p problem_b) store_a_done))
     = \<lparr>currentStreak = 1, longestStreak = 2, totalCompleted = 1, lastCompletedDate = Some 0\<rparr>"
proof -
  have m: "problem_b \<in> set (problems store_a_done)"
    by (simp add: store_a_done_def)
  have f: "\<forall>q\<in>set (problems store_a_done). id_p q = id_p problem_b
             \<longrightarrow> \<not> completed q \<and> completedDate q = None"
    by (simp add: store_a_done_def problem_a_def problem_b_def)
  have sy: "recalculateStatsFromHistory (offset_zone 0) (msPerDay + 5) (stats store_a_done)
              (problems store_a_done) = stats store_a_done"
    by code_simp
  have v: "stats (markIncomplete (offset_zone 0) (msPerDay + 5) (id_p problem_b)
            (markComplete (offset_zone 0) (msPerDay + 5) (id_p problem_b) store_a_done))
     = \<lparr>currentStreak = 1, longestStreak = 2, totalCompleted = 1, lastCompletedDate = Some 0\<rparr>"
    by code_simp
  show ?thesis
    using mark_unmark_round_trip[OF m f sy] m sy v by blast
qed

text \<open>
  Counterexample to C9 as stated: on the fresh store the first problem is not
  completed; marking it and unmarking it at once leaves longestStreak at 1, where it
  was 0 before the mark.
\<close>

theorem mark_unmark_counterexample:
  "\<not> completed problem_a \<and> problem_a \<in> set (problems fresh_store) \<and>
   stats fresh_store =
     \<lparr>currentStreak = 0, longestStreak = 0, totalCompleted = 0, lastCompletedDate = None\<rparr> \<and>
   stats (markIncomplete (offset_zone 0) 5 (id_p problem_a)
            (markComplete (offset_zone 0) 5 (id_p problem_a) fresh_store)) =
     \<lparr>currentStreak = 0, longestStreak = 1, totalCompleted = 0, lastCompletedDate = None\<rparr>"
  by code_simp

subsection \<open>Clock arithmetic in a zone with a fixed offset\<close>

lemma shifted_div:
  fixes t c D :: int
  assumes "0 \<le> c" "c < D"
  shows "(t - c) div D = (if t mod D < c then t div D - 1 else t div D)"
proof -
  have D: "0 < D" using assms by simp
  have m: "0 \<le> t mod D" "t mod D < D" using D by simp_all
  have e: "t - c = (t mod D - c) + (t div D) * D"
    by (simp add: algebra_simps)
  have "(t - c) div D = (t mod D - c) div D + t div D"
    using D by (subst e) simp
  moreover have "(t mod D - c) div D = (if t mod D < c then - 1 else 0)"
  proof (cases "t mod D < c")
    case True
    have "D \<noteq> 0" using D by simp
    then have "(t mod D - c + D) div D = (t mod D - c) div D + 1"
      by (rule div_add_self2)
    then have "(t mod D - c) div D = (t mod D - c + D) div D - 1"
      by simp
    moreover have "(t mod D - c + D) div D = 0"
      using True m assms by (intro div_pos_pos_trivial; linarith)
    ultimately show ?thesis using True by simp
  next
    case False
    then have "(t mod D - c) div D = 0"
      using m assms by (intro div_pos_pos_trivial; linarith)
    then show ?thesis using False by simp
  qed
  ultimately show ?thesis by simp
qed

lemma toDateString_offset:
  assumes "0 \<le> c" "c < msPerDay"
  shows "toDateString (offset_zone c) t = (t - c) div msPerDay"
proof -
  have D: "0 < msPerDay" by (simp add: msPerDay_def)
  have m: "0 \<le> t mod msPerDay" "t mod msPerDay < msPerDay" using D by simp_all
  have e: "t div msPerDay * msPerDay = t - t mod msPerDay"
    by (simp add: minus_mod_eq_div_mult)
  have a: "t < t div msPerDay * msPerDay + c \<longleftrightarrow> t mod msPerDay < c"
    unfolding e by linarith
  have "(t div msPerDay + 1) * msPerDay = t - t mod msPerDay + msPerDay"
    using e by (simp add: algebra_simps)
  then have b: "\<not> (t div msPerDay + 1) * msPerDay + c \<le> t"
    using m assms by linarith
  show ?thesis
    using a b by (simp add: toDateString_def offset_zone_def Let_def shifted_div[OF assms])
qed

lemma getTime_offset: "getTime (offset_zone c) d = d * msPerDay + c"
  by (simp add: getTime_def offset_zone_def)

lemma day_gap_offset: "day_gap (offset_zone c) a b = b - a"
proof -
  have "(2 * ((b - a) * 86400000) + 86400000) div (2 * 86400000) = b - a" by simp
  then show ?thesis
    by (simp add: day_gap_def math_round_div_def getTime_offset msPerDay_def algebra_simps)
qed

lemma floor_gap_offset:
  assumes "0 \<le> c" "c < msPerDay"
  shows "math_floor_div (now - getTime (offset_zone c) d) msPerDay =
         toDateString (offset_zone c) now - d"
proof -
  have "now - (d * msPerDay + c) = (now - c) + (- d) * msPerDay"
    by (simp add: algebra_simps)
  then have "(now - (d * msPerDay + c)) div msPerDay = (now - c) div msPerDay + (- d)"
    by (simp only: div_mult_self1[of msPerDay "now - c" "- d"]) (simp add: msPerDay_def)
  then show ?thesis
    by (simp add: math_floor_div_def getTime_offset toDateString_offset[OF assms])
qed

lemma toDateString_getTime_offset:
  assumes "0 \<le> c" "c < msPerDay"
  shows "toDateString (offset_zone c) (getTime (offset_zone c) d) = d"
  by (simp add: toDateString_offset[OF assms] getTime_offset msPerDay_def)

lemma toDateString_offset_mono:
  assumes "0 \<le> c" "c < msPerDay" "t0 \<le> now"
  shows "toDateString (offset_zone c) t0 \<le> toDateString (offset_zone c) now"
  using assms(3) by (simp add: toDateString_offset[OF assms(1,2)] msPerDay_def zdiv_mono1)

lemma getTime_offset_mono:
  "getTime (offset_zone c) a \<le> getTime (offset_zone c) b \<longleftrightarrow> a \<le> b"
  by (simp add: getTime_offset msPerDay_def)

lemma sorted_getTime_offset:
  "sorted (map (\<lambda>p. getTime (offset_zone c) (f p)) xs) \<Longrightarrow> sorted (map f xs)"
  by (induction xs) (auto simp: getTime_offset_mono)

subsection \<open>The sorted history after a new completion\<close>

lemma dates_of_completed_sorted:
  "dates_of (completed_sorted (offset_zone c) ps) =
   sort (dates_of (filter (\<lambda>p. completed p \<and> completedDate p \<noteq> None) ps))"
proof -
  let ?xs = "filter (\<lambda>p. completed p \<and> completedDate p \<noteq> None) ps"
  let ?ys = "dates_of (completed_sorted (offset_zone c) ps)"
  have "sorted (map (\<lambda>p. getTime (offset_zone c) (the (completedDate p)))
                  (completed_sorted (offset_zone c) ps))"
    unfolding completed_sorted_def by (rule sorted_sort_key)
  then have s: "sorted ?ys"
    unfolding dates_of_def by (rule sorted_getTime_offset)
  have m: "mset ?ys = mset (dates_of ?xs)"
    by (simp add: dates_of_def completed_sorted_def)
  show ?thesis
    using properties_for_sort[OF m s] by simp
qed

lemma dates_of_completed_sorted_le:
  "\<forall>q\<in>set ps. \<forall>d. completedDate q = Some d \<longrightarrow> d \<le> t \<Longrightarrow>
   \<forall>d\<in>set (dates_of (completed_sorted z ps)). d \<le> t"
  by (auto simp: dates_of_def completed_sorted_def)

lemma spec_running_append:
  "k < length ds \<Longrightarrow> spec_running z (ds @ es) k = spec_running z ds k"
  by (induction k) (simp_all add: nth_append Let_def)

lemma spec_candidate_append:
  "k < length ds \<Longrightarrow> spec_candidate z (ds @ es) k = spec_candidate z ds k"
proof (induction k)
  case 0
  then show ?case by (simp add: spec_candidate_0)
next
  case (Suc k)
  then have "spec_candidate z (ds @ es) k = spec_candidate z ds k" by simp
  moreover have "spec_running z (ds @ es) (Suc k) = spec_running z ds (Suc k)"
    using Suc.prems by (rule spec_running_append)
  ultimately show ?case by (simp only: spec_candidate_Suc)
qed

lemma spec_running_snoc:
  assumes "ds \<noteq> []"
  shows "spec_running (offset_zone c) (ds @ [t]) (length ds) =
     (let r = spec_running (offset_zone c) ds (length ds - 1) in
      if t - last ds = 1 then r + 1 else if t - last ds > 1 then 1 else r)"
proof -
  from assms obtain k where k: "length ds = Suc k" by (cases ds) auto
  have "(ds @ [t]) ! k = last ds" using k assms by (simp add: nth_append last_conv_nth)
  moreover have "(ds @ [t]) ! Suc k = t" using k by (simp add: nth_append)
  ultimately show ?thesis
    using k by (simp add: Let_def day_gap_offset spec_running_append)
qed

lemma spec_candidate_snoc:
  assumes "ds \<noteq> []"
  shows "spec_candidate z (ds @ [t]) (length ds) =
     max (spec_candidate z ds (length ds - 1)) (spec_running z (ds @ [t]) (length ds))"
proof -
  from assms obtain k where k: "length ds = Suc k" by (cases ds) auto
  then show ?thesis
    by (simp add: spec_candidate_Suc spec_candidate_append)
qed

lemma mset_dates_complete_entry:
  "distinct (map id_p ps) \<Longrightarrow> p \<in> set ps \<Longrightarrow> \<not> completed p \<Longrightarrow>
   mset (dates_of (filter (\<lambda>q. completed q \<and> completedDate q \<noteq> None)
                     (map (complete_entry t (id_p p)) ps))) =
   add_mset t (mset (dates_of (filter (\<lambda>q. completed q \<and> completedDate q \<noteq> None) ps)))"
proof (induction ps)
  case Nil
  then show ?case by simp
next
  case (Cons q qs)
  show ?case
  proof (cases "q = p")
    case True
    from Cons.prems(1) True have "\<forall>r\<in>set qs. id_p r \<noteq> id_p p" by (auto simp: image_iff)
    then have rest: "map (complete_entry t (id_p p)) qs = qs" by (rule map_complete_entry_other)
    have hd: "complete_entry t (id_p p) p = p\<lparr>completed := True, completedDate := Some t\<rparr>"
      by (simp add: complete_entry_def)
    show ?thesis
      using True Cons.prems(3) by (simp add: rest hd dates_of_def)
  next
    case False
    with Cons.prems have p_in: "p \<in> set qs" by simp
    with Cons.prems(1) have "id_p q \<noteq> id_p p" by auto
    then have "complete_entry t (id_p p) q = q" by (simp add: complete_entry_def)
    moreover from Cons.prems(1) have "distinct (map id_p qs)" by simp
    ultimately show ?thesis
      using Cons.IH p_in Cons.prems(3) by (simp add: dates_of_def)
  qed
qed

lemma dates_after_complete_entry:
  assumes "distinct (map id_p ps)" "p \<in> set ps" "\<not> completed p"
    and "\<forall>q\<in>set ps. \<forall>d. completedDate q = Some d \<longrightarrow> d \<le> t"
  shows "dates_of (completed_sorted (offset_zone c) (map (complete_entry t (id_p p)) ps)) =
         dates_of (completed_sorted (offset_zone c) ps) @ [t]"
proof -
  let ?f = "\<lambda>q. completed q \<and> completedDate q \<noteq> None"
  let ?old = "dates_of (filter ?f ps)"
  have le: "\<forall>d\<in>set (sort ?old). d \<le> t"
    using assms(4) by (auto simp: dates_of_def)
  have s: "sorted (sort ?old @ [t])"
    using le by (simp add: sorted_append)
  have m: "mset (sort ?old @ [t]) =
           mset (dates_of (filter ?f (map (complete_entry t (id_p p)) ps)))"
    using mset_dates_complete_entry[OF assms(1-3), of t] by simp
  show ?thesis
    using properties_for_sort[OF m s] by (simp add: dates_of_completed_sorted)
qed

lemma markComplete_stats_offset:
  assumes "0 \<le> c" "c < msPerDay"
  shows "stats (markComplete (offset_zone c) now i s) =
     (let nc = (case lastCompletedDate (stats s) of
                  None \<Rightarrow> 1
                | Some l \<Rightarrow>
                    if l = toDateString (offset_zone c) now - 1
                    then currentStreak (stats s) + 1
                    else if l \<noteq> toDateString (offset_zone c) now then 1
                    else currentStreak (stats s))
      in \<lparr>currentStreak = nc,
          longestStreak = max (longestStreak (stats s)) nc,
          totalCompleted = totalCompleted (stats s) + 1,
          lastCompletedDate = Some (toDateString (offset_zone c) now)\<rparr>)"
  by (simp add: markComplete_def Let_def yesterdayDateString_def
        toDateString_getTime_offset[OF assms] split: option.splits)

lemma recalc_nonempty_offset:
  assumes "0 \<le> c" "c < msPerDay" "completed_sorted (offset_zone c) ps \<noteq> []"
  defines "ds \<equiv> dates_of (completed_sorted (offset_zone c) ps)"
  shows "recalculateStatsFromHistory (offset_zone c) now st ps =
     \<lparr>currentStreak = (if toDateString (offset_zone c) now - last ds > 1 then 0
                        else spec_running (offset_zone c) ds (length ds - 1)),
      longestStreak =
        max (longestStreak st) (spec_candidate (offset_zone c) ds (length ds - 1)),
      totalCompleted = int (length ds),
      lastCompletedDate = Some (last ds)\<rparr>"
  using recalc_nonempty[OF assms(3), of now st]
  by (simp add: floor_gap_offset[OF assms(1,2)] ds_def)

text \<open>
  Claim C3, amended: in a time zone with a fixed offset, where every local day lasts 24
  hours, the Stats of the incremental update in markComplete equal those of a full
  recomputation over the updated problem list when (a) ids are unique and the id is
  that of a problem not yet completed, (b) no completion date lies after today, and
  (c) the Stats before the call are in step with the store: a recomputation at some
  moment \<open>t0\<close> not after now yields them.
\<close>

theorem incremental_equals_recompute:
  assumes zone: "0 \<le> c" "c < msPerDay"
    and dist: "distinct (map id_p (problems s))"
    and p: "p \<in> set (problems s)" "\<not> completed p"
    and past: "\<forall>q\<in>set (problems s). \<forall>d. completedDate q = Some d
                 \<longrightarrow> d \<le> toDateString (offset_zone c) now"
    and sync: "recalculateStatsFromHistory (offset_zone c) t0 (stats s) (problems s) = stats s"
      "t0 \<le> now"
  shows "stats (markComplete (offset_zone c) now (id_p p) s) =
         recalculateStatsFromHistory (offset_zone c) now (stats s)
           (problems (markComplete (offset_zone c) now (id_p p) s))"
proof -
  let ?z = "offset_zone c"
  let ?T = "toDateString ?z now"
  let ?S = "toDateString ?z t0"
  let ?ps = "problems s"
  let ?ps' = "map (complete_entry ?T (id_p p)) ?ps"
  let ?ds = "dates_of (completed_sorted ?z ?ps)"
  have ds': "dates_of (completed_sorted ?z ?ps') = ?ds @ [?T]"
    using dist p past by (rule dates_after_complete_entry)
  then have ne': "completed_sorted ?z ?ps' \<noteq> []"
    by (auto simp: dates_of_def)
  have new: "recalculateStatsFromHistory ?z now (stats s) ?ps' =
     \<lparr>currentStreak = spec_running ?z (?ds @ [?T]) (length ?ds),
      longestStreak =
        max (longestStreak (stats s)) (spec_candidate ?z (?ds @ [?T]) (length ?ds)),
      totalCompleted = int (length ?ds) + 1,
      lastCompletedDate = Some ?T\<rparr>"
    using recalc_nonempty_offset[OF zone ne', of now "stats s"] by (simp add: ds')
  have ST: "?S \<le> ?T"
    using zone sync(2) by (rule toDateString_offset_mono)
  show ?thesis
  proof (cases "completed_sorted ?z ?ps = []")
    case True
    with sync(1) have st: "stats s =
      \<lparr>currentStreak = 0, longestStreak = longestStreak (stats s),
       totalCompleted = 0, lastCompletedDate = None\<rparr>"
      by (simp add: recalc_empty)
    have l: "lastCompletedDate (stats s) = None" and t: "totalCompleted (stats s) = 0"
      by (subst st, simp)+
    from True have e: "?ds = []" by (simp add: dates_of_def)
    show ?thesis
      unfolding markComplete_problems new
      by (simp add: markComplete_stats_offset[OF zone] l t e spec_candidate_0)
  next
    case False
    then have dne: "?ds \<noteq> []" by (simp add: dates_of_def)
    let ?r = "spec_running ?z ?ds (length ?ds - 1)"
    let ?c = "spec_candidate ?z ?ds (length ?ds - 1)"
    let ?L = "last ?ds"
    have st: "stats s = \<lparr>currentStreak = (if ?S - ?L > 1 then 0 else ?r),
        longestStreak = max (longestStreak (stats s)) ?c,
        totalCompleted = int (length ?ds),
        lastCompletedDate = Some ?L\<rparr>"
      using recalc_nonempty_offset[OF zone False, of t0 "stats s"] sync(1) by simp
    have l: "lastCompletedDate (stats s) = Some ?L"
      and t: "totalCompleted (stats s) = int (length ?ds)"
      and c: "currentStreak (stats s) = (if ?S - ?L > 1 then 0 else ?r)"
      by (subst st, simp)+
    have "longestStreak (stats s) = max (longestStreak (stats s)) ?c"
      by (subst st) simp
    then have lg: "?c \<le> longestStreak (stats s)" by simp
    have "?L \<in> set ?ds" using dne by simp
    then have le: "?L \<le> ?T"
      using dates_of_completed_sorted_le[OF past] by blast
    show ?thesis
      unfolding markComplete_problems new
      using le lg ST
      by (simp add: markComplete_stats_offset[OF zone] l t c spec_running_snoc[OF dne]
            spec_candidate_snoc[OF dne] Let_def) (auto simp: max_def)
  qed
qed

text \<open>
  Witness for C3, in the zone with offset 0: the first problem was completed on day 0
  and the Stats are those a recomputation on day 0 yields; on day 1 the second problem
  is marked: both the incremental update and the recomputation give streak 2, longest
  2, total 2, last day 1.
\<close>

theorem incremental_equals_recompute_witness:
  "(0::int) \<le> 0 \<and> 0 < msPerDay \<and>
   distinct (map id_p (problems store_a_done)) \<and>
   problem_b \<in> set (problems store_a_done) \<and> \<not> completed problem_b \<and>
   recalculateStatsFromHistory (offset_zone 0) 5 (stats store_a_done) (problems store_a_done)
     = stats store_a_done \<and>
   5 \<le> msPerDay + 5 \<and>
   stats (markComplete (offset_zone 0) (msPerDay + 5) (id_p problem_b) store_a_done) =
     recalculateStatsFromHistory (offset_zone 0) (msPerDay + 5) (stats store_a_done)
       (problems (markComplete (offset_zone 0) (msPerDay + 5) (id_p problem_b) store_a_done)) \<and>
   stats (markComplete (offset_zone 0) (msPerDay + 5) (id_p problem_b) store_a_done) =
     \<lparr>currentStreak = 2, longestStreak = 2, totalCompleted = 2, lastCompletedDate = Some 1\<rparr>"
proof -
  have z0: "(0::int) \<le> 0" by simp
  have z1: "0 < msPerDay" by (simp add: msPerDay_def)
  have d: "distinct (map id_p (problems store_a_done))"
    by (simp add: store_a_done_def problem_a_def problem_b_def)
  have m: "problem_b \<in> set (problems store_a_done)"
    by (simp add: store_a_done_def)
  have c: "\<not> completed problem_b"
    by (simp add: problem_b_def)
  have T: "toDateString (offset_zone 0) (msPerDay + 5) = 1"
    by (simp add: toDateString_def offset_zone_def msPerDay_def)
  have pa: "\<forall>q\<in>set (problems store_a_done). \<forall>d. completedDate q = Some d
              \<longrightarrow> d \<le> toDateString (offset_zone 0) (msPerDay + 5)"
    unfolding T by (simp add: store_a_done_def problem_a_def problem_b_def)
  have sy: "recalculateStatsFromHistory (offset_zone 0) 5 (stats store_a_done)
              (problems store_a_done) = stats store_a_done"
    by code_simp
  have le: "5 \<le> msPerDay + 5"
    by (simp add: msPerDay_def)
  have v: "stats (markComplete (offset_zone 0) (msPerDay + 5) (id_p problem_b) store_a_done) =
     \<lparr>currentStreak = 2, longestStreak = 2, totalCompleted = 2, lastCompletedDate = Some 1\<rparr>"
    by code_simp
  show ?thesis
    using incremental_equals_recompute[OF z0 z1 d m c pa sy le] z0 z1 d m c sy le v by blast
qed

text \<open>
  Counterexample to C3 as stated: the id of the first problem is valid, but the problem
  is already completed (day 0); marking it on day 1 gives streak 2 and total 2
  incrementally, while the recomputation over the updated list gives streak 1 and
  total 1.
\<close>

theorem incremental_differs_counterexample:
  "''problem-1-0'' \<in> set (map id_p (problems store_a_done)) \<and>
   stats (markComplete (offset_zone 0) msPerDay ''problem-1-0'' store_a_done) =
     \<lparr>currentStreak = 2, longestStreak = 2, totalCompleted = 2, lastCompletedDate = Some 1\<rparr> \<and>
   recalculateStatsFromHistory (offset_zone 0) msPerDay (stats store_a_done)
       (problems (markComplete (offset_zone 0) msPerDay ''problem-1-0'' store_a_done)) =
     \<lparr>currentStreak = 1, longestStreak = 1, totalCompleted = 1, lastCompletedDate = Some 1\<rparr>"
  by code_simp

text \<open>
  Why C3 needs days of 24 hours: in the zone where day 1 lasts 25 hours, two problems
  were completed on the days 0 and 1. At 23:30 on day 2 a recomputation finds
  48.5 hours since the midnight of day 1, floors them to 2 days and sets currentStreak
  0, so the Stats of \<open>fall_back_store\<close> are in step with its problems. Marking the
  third problem, not yet completed, at that time finds the last date to be yesterday
  and gives streak 0 + 1 = 1; the recomputation over the updated list gives streak 3.
\<close>

lemma daylight_saving_divergence:
  "distinct (map id_p (problems fall_back_store)) \<and>
   problem_b \<in> set (problems fall_back_store) \<and> \<not> completed problem_b \<and>
   toDateString fall_back_zone late_on_day_2 = 2 \<and>
   recalculateStatsFromHistory fall_back_zone late_on_day_2 (stats fall_back_store)
       (problems fall_back_store)
     = stats fall_back_store \<and>
   stats (markComplete fall_back_zone late_on_day_2 (id_p problem_b) fall_back_store) =
     \<lparr>currentStreak = 1, longestStreak = 2, totalCompleted = 3, lastCompletedDate = Some 2\<rparr> \<and>
   recalculateStatsFromHistory fall_back_zone late_on_day_2 (stats fall_back_store)
       (problems (markComplete fall_back_zone late_on_day_2 (id_p problem_b) fall_back_store)) =
     \<lparr>currentStreak = 3, longestStreak = 3, totalCompleted = 3, lastCompletedDate = Some 2\<rparr>"
  by code_simp


end
